theory Spec2Isabelle
  imports Main "HOL-Library.Word"
begin

unbundle bit_operations_syntax

section \<open>Go values shared by the pool and the in-memory worker\<close>

text \<open>
  The error values of the package. \<open>ErrQueueShutdown\<close>, \<open>ErrMissingWorker\<close> and
  \<open>errMaxCapacity\<close> are the package-level variables of the source; \<open>errNoMessage\<close> is the
  anonymous \<^verbatim>\<open>errors.New("no message in queue")\<close> of \<^verbatim>\<open>Consumer.Request\<close>;
  \<open>DeadlineExceeded\<close> and \<open>Canceled\<close> are the two errors of Go's context package;
  \<open>UnmarshalError\<close> stands for every error of \<^verbatim>\<open>json.Unmarshal\<close>; \<open>TaskError\<close> is an
  error made by user code.
\<close>

datatype error =
    ErrQueueShutdown
  | ErrMissingWorker
  | errMaxCapacity
  | errNoMessage
  | DeadlineExceeded
  | Canceled
  | UnmarshalError
  | TaskError string

text \<open>A call either returns or panics; a panic carries its value.\<close>

datatype 'a outcome = Return 'a | Panic string

type_synonym byte = char

text \<open>A \<^verbatim>\<open>[]byte\<close>; \<open>None\<close> is the nil slice, which JSON encodes differently from an empty one.\<close>

type_synonym bytes = "byte list option"


text \<open>\<^verbatim>\<open>time.Duration\<close> and \<^verbatim>\<open>int64\<close>: 64-bit two's complement, read with \<open>sint\<close>.\<close>

type_synonym duration = "64 word"

subsection \<open>Channels\<close>

text \<open>
  A buffered channel: its buffer in FIFO order, its capacity, and whether it was closed.
  The operations below are the ones the source uses: \<^verbatim>\<open>make\<close>, \<^verbatim>\<open>close\<close> (which panics
  on a closed channel), \<^verbatim>\<open>len\<close>, \<^verbatim>\<open>cap\<close>, and the send and the receive of a
  \<^verbatim>\<open>select\<close> with a \<^verbatim>\<open>default\<close> branch. No goroutine of the source ever blocks in a
  receive on these channels, so a send is ready exactly when the buffer has room.
\<close>

record 'a chan =
  ch_buf :: "'a list"
  ch_cap :: nat
  ch_closed :: bool

definition make_chan :: "nat \<Rightarrow> 'a chan" where
  "make_chan n = \<lparr>ch_buf = [], ch_cap = n, ch_closed = False\<rparr>"

definition close_chan :: "'a chan \<Rightarrow> 'a chan outcome" where
  "close_chan c =
     (if ch_closed c then Panic ''close of closed channel''
      else Return (c\<lparr>ch_closed := True\<rparr>))"

text \<open>
  \<^verbatim>\<open>select { case c <- x: ...; default: ... }\<close>: \<open>Return (Some c')\<close> when the send
  went through, \<open>Return None\<close> when the default branch was taken.
\<close>

definition try_send :: "'a chan \<Rightarrow> 'a \<Rightarrow> 'a chan option outcome" where
  "try_send c x =
     (if ch_closed c then Panic ''send on closed channel''
      else if length (ch_buf c) < ch_cap c then Return (Some (c\<lparr>ch_buf := ch_buf c @ [x]\<rparr>))
      else Return None)"

text \<open>
  \<^verbatim>\<open>select { case x := <-c: ...; default: ... }\<close>: \<open>Some (Some x, c')\<close> for a received
  value, \<open>Some (None, c)\<close> for the zero value read from a closed and drained channel,
  \<open>None\<close> for the default branch.
\<close>

definition try_recv :: "'a chan \<Rightarrow> ('a option \<times> 'a chan) option" where
  "try_recv c =
     (case ch_buf c of
        x # xs \<Rightarrow> Some (Some x, c\<lparr>ch_buf := xs\<rparr>)
      | [] \<Rightarrow> if ch_closed c then Some (None, c) else None)"

subsection \<open>Metric counters\<close>

text \<open>
  Modelled from the spec: the metric type is not among the source files. The spec describes
  it as the counters submitted, success and failure and the gauge of busy workers; the
  readers of the source return \<^verbatim>\<open>uint64\<close>, so each is a 64-bit word that wraps.
\<close>

record metric =
  busyWorkers :: "64 word"
  successTasks :: "64 word"
  failureTasks :: "64 word"
  submittedTasks :: "64 word"

definition IncBusyWorker :: "metric \<Rightarrow> metric" where
  "IncBusyWorker m = m\<lparr>busyWorkers := busyWorkers m + 1\<rparr>"

definition DecBusyWorker :: "metric \<Rightarrow> metric" where
  "DecBusyWorker m = m\<lparr>busyWorkers := busyWorkers m - 1\<rparr>"

definition IncSuccessTask :: "metric \<Rightarrow> metric" where
  "IncSuccessTask m = m\<lparr>successTasks := successTasks m + 1\<rparr>"

definition IncFailureTask :: "metric \<Rightarrow> metric" where
  "IncFailureTask m = m\<lparr>failureTasks := failureTasks m + 1\<rparr>"

definition IncSubmittedTask :: "metric \<Rightarrow> metric" where
  "IncSubmittedTask m = m\<lparr>submittedTasks := submittedTasks m + 1\<rparr>"

subsection \<open>Callables, contexts and jobs\<close>

text \<open>
  User code is opaque to the package: a \<^verbatim>\<open>TaskFunc\<close> is known by what it does when it is
  run. \<open>Finishes d r\<close> says that it ends \<open>d\<close> nanoseconds after it was started, by
  returning an error or nil (\<open>Returns\<close>) or by panicking (\<open>Panics\<close>); \<open>Hangs\<close> says that it
  never ends. What it does may depend on its context: the moment, in nanoseconds after the
  start, at which \<^verbatim>\<open>ctx.Done()\<close> is closed, and the error \<^verbatim>\<open>ctx.Err()\<close> reports then.
\<close>

datatype ending = Returns "error option" | Panics string

datatype run = Finishes nat ending | Hangs

record ctx =
  done_at :: nat
  ctx_err :: error

type_synonym TaskFunc = "ctx \<Rightarrow> run"

text \<open>
  Modelled from the spec: the declaration of \<^verbatim>\<open>Job\<close> is not among the source files. The
  tests build it from the fields \<^verbatim>\<open>Task\<close>, \<^verbatim>\<open>Timeout\<close> and \<^verbatim>\<open>Body\<close>.
\<close>

record job =
  Task :: "TaskFunc option"
  Timeout :: duration
  Body :: bytes


text \<open>
  A \<^verbatim>\<open>QueuedMessage\<close> is an interface value. \<^verbatim>\<open>Consumer.Run\<close> observes two things of
  it: what \<^verbatim>\<open>Bytes()\<close> returns, and what the type assertion \<^verbatim>\<open>task.(Job)\<close> yields
  (\<open>None\<close> when the dynamic type is not \<^verbatim>\<open>Job\<close>).
\<close>

record QueuedMessage =
  Bytes :: bytes
  as_Job :: "job option"

section \<open>The in-memory worker: Consumer\<close>

text \<open>
  The fields of the struct, without the logger, which no method of the source writes to.
  \<open>stopOnce\<close> is the done flag of the \<^verbatim>\<open>sync.Once\<close>.
\<close>

record consumer =
  taskQueue :: "QueuedMessage chan"
  runFunc :: "ctx \<Rightarrow> job \<Rightarrow> run"
  stop :: "unit chan"
  stopOnce :: bool
  stopFlag :: "32 word"
  metric :: metric

definition NewConsumer :: "nat \<Rightarrow> (ctx \<Rightarrow> job \<Rightarrow> run) \<Rightarrow> metric \<Rightarrow> consumer" where
  "NewConsumer queueSize fn m =
     \<lparr>taskQueue = make_chan queueSize, runFunc = fn, stop = make_chan 0,
      stopOnce = False, stopFlag = 0, metric = m\<rparr>"

definition Consumer_Shutdown :: "consumer \<Rightarrow> error option outcome \<times> consumer" where
  "Consumer_Shutdown s =
     (if stopFlag s \<noteq> 0 then (Return (Some ErrQueueShutdown), s)
      else
        let s1 = s\<lparr>stopFlag := 1\<rparr> in
        if stopOnce s1 then (Return None, s1)
        else
          (case close_chan (stop s1) of
             Panic p \<Rightarrow> (Panic p, s1\<lparr>stopOnce := True\<rparr>)
           | Return st \<Rightarrow>
               (case close_chan (taskQueue s1) of
                  Panic p \<Rightarrow> (Panic p, s1\<lparr>stop := st, stopOnce := True\<rparr>)
                | Return tq \<Rightarrow>
                    (Return None, s1\<lparr>stop := st, taskQueue := tq, stopOnce := True\<rparr>))))"

definition Capacity :: "consumer \<Rightarrow> int" where
  "Capacity s = int (ch_cap (taskQueue s))"

definition Usage :: "consumer \<Rightarrow> int" where
  "Usage s = int (length (ch_buf (taskQueue s)))"

definition Consumer_Queue :: "consumer \<Rightarrow> QueuedMessage \<Rightarrow> error option outcome \<times> consumer" where
  "Consumer_Queue s task =
     (if stopFlag s = 1 then (Return (Some ErrQueueShutdown), s)
      else
        (case try_send (taskQueue s) task of
           Panic p \<Rightarrow> (Panic p, s)
         | Return (Some tq) \<Rightarrow> (Return None, s\<lparr>taskQueue := tq\<rparr>)
         | Return None \<Rightarrow> (Return (Some errMaxCapacity), s)))"

definition Consumer_Request :: "consumer \<Rightarrow> (QueuedMessage option \<times> error option) \<times> consumer" where
  "Consumer_Request s =
     (case try_recv (taskQueue s) of
        Some (task, tq) \<Rightarrow> ((task, None), s\<lparr>taskQueue := tq\<rparr>)
      | None \<Rightarrow> ((None, Some errNoMessage), s))"

text \<open>
  A consumer that has not been shut down: the flag is clear, the once has not run and
  both channels are open, as \<open>NewConsumer\<close> makes it and as \<open>Consumer_Queue\<close> and
  \<open>Consumer_Request\<close> leave it; the buffer holds no more than the capacity.
\<close>

definition running :: "consumer \<Rightarrow> bool" where
  "running s =
     (stopFlag s = 0 \<and> \<not> stopOnce s \<and> \<not> ch_closed (stop s) \<and> \<not> ch_closed (taskQueue s)
      \<and> length (ch_buf (taskQueue s)) \<le> ch_cap (taskQueue s))"

subsection \<open>Running a job\<close>









section \<open>Messages and their serialization\<close>

text \<open>
  \<^verbatim>\<open>job.Message\<close>. The fields \<^verbatim>\<open>Task\<close> and \<^verbatim>\<open>Timeout\<close> carry the prefix \<open>msg_\<close>
  here, since \<open>job\<close> has fields of the same names.
\<close>

record Message =
  msg_Task :: "TaskFunc option"
  msg_Timeout :: duration
  Payload :: bytes
  RetryCount :: "64 word"
  RetryDelay :: duration

definition Message_Bytes :: "Message \<Rightarrow> bytes" where
  "Message_Bytes m = (if msg_Task m \<noteq> None then None else Payload m)"

subsection \<open>The JSON text of a message\<close>

text \<open>
  \<^verbatim>\<open>Encode\<close> is \<^verbatim>\<open>json.Marshal\<close> on the struct, and ignores its error. Its output for
  this struct is fixed by the field tags: the object of the members \<^verbatim>\<open>timeout\<close>,
  \<^verbatim>\<open>body\<close>, \<^verbatim>\<open>retry_count\<close> and \<^verbatim>\<open>retry_delay\<close> in the order of the fields, the
  integers in decimal, the byte slice in padded standard base64 (\<^verbatim>\<open>null\<close> when it is
  nil); \<^verbatim>\<open>Task\<close> is tagged \<^verbatim>\<open>json:"-"\<close> and left out.
\<close>

definition digit_char :: "nat \<Rightarrow> char" where
  "digit_char d = ''0123456789'' ! d"

fun show_nat :: "nat \<Rightarrow> string" where
  "show_nat n =
     (if n < 10 then [digit_char n] else show_nat (n div 10) @ [digit_char (n mod 10)])"

declare show_nat.simps [simp del]

definition show_int :: "int \<Rightarrow> string" where
  "show_int i = (if i < 0 then CHR ''-'' # show_nat (nat (- i)) else show_nat (nat i))"

definition b64_alphabet :: string where
  "b64_alphabet = ''ABCDEFGHIJKLMNOPQRSTUVWXYZabcdefghijklmnopqrstuvwxyz0123456789+/''"

definition b64_char :: "nat \<Rightarrow> char" where
  "b64_char i = b64_alphabet ! i"

fun base64_encode :: "string \<Rightarrow> string" where
  "base64_encode (a # b # c # rest) =
     (let n = of_char a * 65536 + of_char b * 256 + of_char c
      in b64_char (n div 262144) # b64_char (n div 4096 mod 64) #
         b64_char (n div 64 mod 64) # b64_char (n mod 64) # base64_encode rest)"
| "base64_encode [a, b] =
     (let n = of_char a * 65536 + of_char b * 256
      in [b64_char (n div 262144), b64_char (n div 4096 mod 64),
          b64_char (n div 64 mod 64), CHR ''=''])"
| "base64_encode [a] =
     (let n = of_char a * 65536
      in [b64_char (n div 262144), b64_char (n div 4096 mod 64), CHR ''='', CHR ''=''])"
| "base64_encode [] = []"

definition json_bytes :: "bytes \<Rightarrow> string" where
  "json_bytes b =
     (case b of None \<Rightarrow> ''null'' | Some xs \<Rightarrow> [CHR 0x22] @ base64_encode xs @ [CHR 0x22])"

definition Message_Encode :: "Message \<Rightarrow> string" where
  \<open>Message_Encode m =
     ''{"timeout":'' @ show_int (sint (msg_Timeout m)) @
     '',"body":'' @ json_bytes (Payload m) @
     '',"retry_count":'' @ show_int (sint (RetryCount m)) @
     '',"retry_delay":'' @ show_int (sint (RetryDelay m)) @ ''}''\<close>

subsection \<open>Reading JSON\<close>

text \<open>
  \<^verbatim>\<open>json.Unmarshal\<close> into one of the two structs, for the part of JSON that the texts
  of \<open>Message_Encode\<close> and of the examples below are written in: an object whose members
  are integers, strings without escapes, \<^verbatim>\<open>null\<close>, \<^verbatim>\<open>true\<close> or \<^verbatim>\<open>false\<close>, with
  white space between the tokens. Input with other JSON (nested values, escapes,
  fractions and exponents) is reported as \<open>Invalid\<close>, which is where these definitions
  leave the library; nothing below evaluates them on such input.

  What the library does with a document: input that is not JSON is an error and leaves
  the target as it was; the document \<^verbatim>\<open>null\<close> does nothing; the members of an object
  are stored one by one, in their order, under the field whose tag is the key (letter
  case is ignored), unknown keys are skipped; a value that does not fit its field (a
  number that is not an \<^verbatim>\<open>int64\<close>, a string where a number belongs, a string that is
  not base64 for a byte slice, and so on) is skipped as well, the other members are
  still stored, and the call returns an error at the end.
\<close>

definition is_ws :: "char \<Rightarrow> bool" where
  "is_ws c = (c = CHR '' '' \<or> c = CHR 0x09 \<or> c = CHR 0x0A \<or> c = CHR 0x0D)"

definition is_digit :: "char \<Rightarrow> bool" where
  "is_digit c = (48 \<le> (of_char c :: nat) \<and> (of_char c :: nat) \<le> 57)"

definition digit_val :: "char \<Rightarrow> nat" where
  "digit_val c = of_char c - 48"

datatype jvalue = JNull | JBool bool | JNumber int | JString string

fun scan_string :: "string \<Rightarrow> (string \<times> string) option" where
  "scan_string [] = None"
| "scan_string (c # cs) =
     (if c = CHR 0x22 then Some ([], cs)
      else if c = CHR 0x5C \<or> (of_char c :: nat) < 32 then None
      else map_option (\<lambda>(s, r). (c # s, r)) (scan_string cs))"

definition scan_digits :: "string \<Rightarrow> (nat \<times> string) option" where
  "scan_digits cs =
     (let ds = takeWhile is_digit cs; rest = dropWhile is_digit cs
      in if ds = [] \<or> (1 < length ds \<and> hd ds = CHR ''0'') then None
         else if rest \<noteq> [] \<and> hd rest \<in> {CHR ''.'', CHR ''e'', CHR ''E''} then None
         else Some (foldl (\<lambda>a c. 10 * a + digit_val c) 0 ds, rest))"

definition scan_value :: "string \<Rightarrow> (jvalue \<times> string) option" where
  "scan_value cs =
     (case cs of
        [] \<Rightarrow> None
      | c # cs' \<Rightarrow>
          if c = CHR 0x22 then map_option (\<lambda>(s, r). (JString s, r)) (scan_string cs')
          else if c = CHR ''-'' then map_option (\<lambda>(n, r). (JNumber (- int n), r)) (scan_digits cs')
          else if is_digit c then map_option (\<lambda>(n, r). (JNumber (int n), r)) (scan_digits cs)
          else if take 4 cs = ''null'' then Some (JNull, drop 4 cs)
          else if take 4 cs = ''true'' then Some (JBool True, drop 4 cs)
          else if take 5 cs = ''false'' then Some (JBool False, drop 5 cs)
          else None)"

fun scan_members :: "nat \<Rightarrow> string \<Rightarrow> (string \<times> jvalue) list option" where
  "scan_members 0 cs = None"
| "scan_members (Suc n) cs =
     (case dropWhile is_ws cs of
        [] \<Rightarrow> None
      | c # cs1 \<Rightarrow>
          if c \<noteq> CHR 0x22 then None
          else
            (case scan_string cs1 of
               None \<Rightarrow> None
             | Some (key, cs2) \<Rightarrow>
                 (case dropWhile is_ws cs2 of
                    [] \<Rightarrow> None
                  | c2 # cs3 \<Rightarrow>
                      if c2 \<noteq> CHR '':'' then None
                      else
                        (case scan_value (dropWhile is_ws cs3) of
                           None \<Rightarrow> None
                         | Some (v, cs4) \<Rightarrow>
                             (case dropWhile is_ws cs4 of
                                [] \<Rightarrow> None
                              | c4 # cs5 \<Rightarrow>
                                  if c4 = CHR '','' then map_option ((#) (key, v)) (scan_members n cs5)
                                  else if c4 = CHR ''}'' \<and> list_all is_ws cs5 then Some [(key, v)]
                                  else None)))))"

datatype document = Invalid | Null | Object "(string \<times> jvalue) list"

definition scan_document :: "string \<Rightarrow> document" where
  "scan_document cs =
     (case dropWhile is_ws cs of
        [] \<Rightarrow> Invalid
      | c # cs1 \<Rightarrow>
          if c = CHR ''{'' then
            (case dropWhile is_ws cs1 of
               [] \<Rightarrow> Invalid
             | c1 # cs2 \<Rightarrow>
                 if c1 = CHR ''}'' then (if list_all is_ws cs2 then Object [] else Invalid)
                 else (case scan_members (length cs1) cs1 of
                         Some ms \<Rightarrow> Object ms
                       | None \<Rightarrow> Invalid))
          else if take 4 (c # cs1) = ''null'' \<and> list_all is_ws (drop 4 (c # cs1)) then Null
          else Invalid)"

definition b64_index :: "char \<Rightarrow> nat option" where
  "b64_index c =
     (let n = (of_char c :: nat)
      in if 65 \<le> n \<and> n \<le> 90 then Some (n - 65)
         else if 97 \<le> n \<and> n \<le> 122 then Some (n - 71)
         else if 48 \<le> n \<and> n \<le> 57 then Some (n + 4)
         else if c = CHR ''+'' then Some 62
         else if c = CHR ''/'' then Some 63
         else None)"

fun base64_decode :: "string \<Rightarrow> string option" where
  "base64_decode [] = Some []"
| "base64_decode [a, b, c, d] =
     (case (b64_index a, b64_index b) of
        (Some x, Some y) \<Rightarrow>
          if c = CHR ''='' \<and> d = CHR ''='' then Some [char_of (x * 4 + y div 16)]
          else
            (case b64_index c of
               None \<Rightarrow> None
             | Some z \<Rightarrow>
                 if d = CHR ''='' then Some [char_of (x * 4 + y div 16), char_of (y * 16 + z div 4)]
                 else
                   (case b64_index d of
                      None \<Rightarrow> None
                    | Some w \<Rightarrow>
                        Some [char_of (x * 4 + y div 16), char_of (y * 16 + z div 4),
                              char_of (z * 64 + w)]))
      | _ \<Rightarrow> None)"
| "base64_decode (a # b # c # d # rest) =
     (case (b64_index a, b64_index b, b64_index c, b64_index d) of
        (Some x, Some y, Some z, Some w) \<Rightarrow>
          map_option
            (\<lambda>r. char_of (x * 4 + y div 16) # char_of (y * 16 + z div 4) # char_of (z * 64 + w) # r)
            (base64_decode rest)
      | _ \<Rightarrow> None)"
| "base64_decode _ = None"

definition lower :: "char \<Rightarrow> char" where
  "lower c =
     (if 65 \<le> (of_char c :: nat) \<and> (of_char c :: nat) \<le> 90 then char_of (of_char c + 32 :: nat)
      else c)"

definition store_int64 :: "jvalue \<Rightarrow> 64 word \<Rightarrow> bool \<times> 64 word" where
  "store_int64 v old =
     (case v of
        JNumber n \<Rightarrow> if - (2 ^ 63) \<le> n \<and> n < 2 ^ 63 then (True, word_of_int n) else (False, old)
      | JNull \<Rightarrow> (True, old)
      | _ \<Rightarrow> (False, old))"

definition store_bytes :: "jvalue \<Rightarrow> bytes \<Rightarrow> bool \<times> bytes" where
  "store_bytes v old =
     (case v of
        JString s \<Rightarrow> (case base64_decode s of Some b \<Rightarrow> (True, Some b) | None \<Rightarrow> (False, old))
      | JNull \<Rightarrow> (True, None)
      | _ \<Rightarrow> (False, old))"



definition Message_member :: "string \<times> jvalue \<Rightarrow> bool \<times> Message \<Rightarrow> bool \<times> Message" where
  "Message_member kv acc =
     (case (kv, acc) of
        ((k, v), (ok, m)) \<Rightarrow>
          if map lower k = ''timeout'' then
            (case store_int64 v (msg_Timeout m) of (ok', x) \<Rightarrow> (ok \<and> ok', m\<lparr>msg_Timeout := x\<rparr>))
          else if map lower k = ''body'' then
            (case store_bytes v (Payload m) of (ok', x) \<Rightarrow> (ok \<and> ok', m\<lparr>Payload := x\<rparr>))
          else if map lower k = ''retry_count'' then
            (case store_int64 v (RetryCount m) of (ok', x) \<Rightarrow> (ok \<and> ok', m\<lparr>RetryCount := x\<rparr>))
          else if map lower k = ''retry_delay'' then
            (case store_int64 v (RetryDelay m) of (ok', x) \<Rightarrow> (ok \<and> ok', m\<lparr>RetryDelay := x\<rparr>))
          else acc)"

definition json_Unmarshal_Message :: "string \<Rightarrow> Message \<Rightarrow> error option \<times> Message" where
  "json_Unmarshal_Message input target =
     (case scan_document input of
        Invalid \<Rightarrow> (Some UnmarshalError, target)
      | Null \<Rightarrow> (None, target)
      | Object ms \<Rightarrow>
          (case fold Message_member ms (True, target) of
             (ok, m) \<Rightarrow> (if ok then None else Some UnmarshalError, m)))"

text \<open>Names for the proofs: the two characters that may follow a value in an encoded
  message, the characters a string is scanned over, and the JSON value of a byte slice.\<close>

definition separator :: "char \<Rightarrow> bool" where
  "separator c = (c = CHR '','' \<or> c = CHR ''}'')"

definition plain :: "char \<Rightarrow> bool" where
  "plain c = (c \<noteq> CHR 0x22 \<and> c \<noteq> CHR 0x5C \<and> 32 \<le> (of_char c :: nat))"

definition json_of_bytes :: "bytes \<Rightarrow> jvalue" where
  "json_of_bytes b = (case b of None \<Rightarrow> JNull | Some xs \<Rightarrow> JString (base64_encode xs))"

subsection \<open>Per-job options\<close>

text \<open>
  The option type of package \<^verbatim>\<open>job\<close> is not among the source files. \<^verbatim>\<open>NewMessage\<close> and
  \<^verbatim>\<open>NewTask\<close> read the fields \<^verbatim>\<open>retryCount\<close>, \<^verbatim>\<open>retryDelay\<close> and \<^verbatim>\<open>timeout\<close> of
  it; an option is what its \<^verbatim>\<open>Apply\<close> does to the record; \<^verbatim>\<open>NewOptions\<close>, which is
  missing as well, is a parameter of the two constructors.
\<close>

record Options =
  retryCount :: "64 word"
  retryDelay :: duration
  timeout :: duration

type_synonym Option = "Options \<Rightarrow> Options"

definition NewMessage :: "(Option list \<Rightarrow> Options) \<Rightarrow> QueuedMessage \<Rightarrow> Option list \<Rightarrow> Message" where
  "NewMessage NewOptions m opts =
     (let o' = fold (\<lambda>opt acc. opt acc) opts (NewOptions opts)
      in \<lparr>msg_Task = None, msg_Timeout = timeout o', Payload = Bytes m,
          RetryCount = retryCount o', RetryDelay = retryDelay o'\<rparr>)"

definition NewTask :: "(Option list \<Rightarrow> Options) \<Rightarrow> TaskFunc \<Rightarrow> Option list \<Rightarrow> Message" where
  "NewTask NewOptions task opts =
     (let o' = fold (\<lambda>opt acc. opt acc) opts (NewOptions opts)
      in \<lparr>msg_Task = Some task, msg_Timeout = timeout o', Payload = None,
          RetryCount = retryCount o', RetryDelay = retryDelay o'\<rparr>)"

section \<open>The pool: Queue\<close>

text \<open>
  \<^verbatim>\<open>core.Worker\<close> is an interface; the pool knows a worker by its methods. A worker
  here is a state of some type \<open>'w\<close> and the methods as functions on it. Following the
  worker contract, \<^verbatim>\<open>Queue\<close>, \<^verbatim>\<open>Request\<close> and \<^verbatim>\<open>Shutdown\<close> return; \<^verbatim>\<open>Run\<close> may
  return, panic (\<^verbatim>\<open>Queue.work\<close> recovers from that) or never come back (\<open>None\<close>).
  \<open>'m\<close> is the type of the messages that \<^verbatim>\<open>Request\<close> hands out.
\<close>

record ('w, 'm) Worker =
  w_Queue :: "'w \<Rightarrow> Message \<Rightarrow> error option \<times> 'w"
  w_Request :: "'w \<Rightarrow> ('m option \<times> error option) \<times> 'w"
  w_Run :: "'w \<Rightarrow> 'm \<Rightarrow> (error option outcome \<times> 'w) option"
  w_Shutdown :: "'w \<Rightarrow> error option \<times> 'w"

text \<open>
  What the pool does to its collaborators, in the order it does it: the lines it hands
  to the logger, its calls of the worker's \<^verbatim>\<open>Shutdown\<close>, and its closing of
  \<^verbatim>\<open>quit\<close>.
\<close>

datatype event =
    Infof_shutdown "64 word"
  | Error_logged error
  | Errorf_panic string
  | Errorf_runtime error
  | Worker_Shutdown_called
  | quit_closed

text \<open>
  The fields of the struct. \<^verbatim>\<open>int\<close> is taken as 64 bits wide. The mutex is left out:
  only \<^verbatim>\<open>schedule\<close> takes it, and releases it before it returns. The routine group is
  left out with \<^verbatim>\<open>start\<close>. \<open>trace\<close> is the history of events, newest last.
\<close>

record 'w queue =
  q_metric :: metric
  workerCount :: "64 word"
  quit :: "unit chan"
  ready :: "unit chan"
  worker :: 'w
  q_stopOnce :: bool
  q_stopFlag :: "32 word"
  trace :: "event list"

definition NewQueue :: "64 word \<Rightarrow> 'w option \<Rightarrow> error + 'w queue" where
  "NewQueue n w =
     (case w of
        None \<Rightarrow> Inl ErrMissingWorker
      | Some w' \<Rightarrow>
          Inr \<lparr>q_metric = \<lparr>busyWorkers = 0, successTasks = 0, failureTasks = 0, submittedTasks = 0\<rparr>,
               workerCount = n, quit = make_chan 0, ready = make_chan 1, worker = w',
               q_stopOnce = False, q_stopFlag = 0, trace = []\<rparr>)"

definition emit :: "event \<Rightarrow> 'w queue \<Rightarrow> 'w queue" where
  "emit e q = q\<lparr>trace := trace q @ [e]\<rparr>"

text \<open>\<^verbatim>\<open>atomic.CompareAndSwapInt32(&q.stopFlag, 0, 1)\<close>\<close>

definition CompareAndSwap_stopFlag :: "'w queue \<Rightarrow> bool \<times> 'w queue" where
  "CompareAndSwap_stopFlag q =
     (if q_stopFlag q = 0 then (True, q\<lparr>q_stopFlag := 1\<rparr>) else (False, q))"

text \<open>
  \<^verbatim>\<open>q.stopOnce.Do(func() { ... })\<close>: the body runs when the once has not run yet, and
  the once is marked done when the body ends, also by a panic.
\<close>

definition stopOnce_Do :: "('w, 'm) Worker \<Rightarrow> 'w queue \<Rightarrow> unit outcome \<times> 'w queue" where
  "stopOnce_Do W q =
     (if q_stopOnce q then (Return (), q)
      else
        let q1 = (if 0 < busyWorkers (q_metric q)
                  then emit (Infof_shutdown (busyWorkers (q_metric q))) q else q);
            (err, w') = w_Shutdown W (worker q1);
            q2 = emit Worker_Shutdown_called (q1\<lparr>worker := w'\<rparr>);
            q3 = (case err of Some e \<Rightarrow> emit (Error_logged e) q2 | None \<Rightarrow> q2)
        in case close_chan (quit q3) of
             Panic p \<Rightarrow> (Panic p, q3\<lparr>q_stopOnce := True\<rparr>)
           | Return c \<Rightarrow> (Return (), emit quit_closed (q3\<lparr>quit := c, q_stopOnce := True\<rparr>)))"

definition Queue_Shutdown :: "('w, 'm) Worker \<Rightarrow> 'w queue \<Rightarrow> unit outcome \<times> 'w queue" where
  "Queue_Shutdown W q =
     (case CompareAndSwap_stopFlag q of
        (False, q') \<Rightarrow> (Return (), q')
      | (True, q') \<Rightarrow> stopOnce_Do W q')"

definition Queue_Queue ::
  "(Option list \<Rightarrow> Options) \<Rightarrow> ('w, 'm) Worker \<Rightarrow> 'w queue \<Rightarrow> QueuedMessage \<Rightarrow> Option list
     \<Rightarrow> error option \<times> 'w queue" where
  "Queue_Queue NewOptions W q m opts =
     (if q_stopFlag q = 1 then (Some ErrQueueShutdown, q)
      else
        let message = NewMessage NewOptions m opts;
            (err, w') = w_Queue W (worker q)
                          \<lparr>msg_Task = None, msg_Timeout = 0,
                           Payload = Some (Message_Encode message),
                           RetryCount = 0, RetryDelay = 0\<rparr>
        in case err of
             Some e \<Rightarrow> (Some e, q\<lparr>worker := w'\<rparr>)
           | None \<Rightarrow> (None, q\<lparr>worker := w', q_metric := IncSubmittedTask (q_metric q)\<rparr>))"

definition Queue_QueueTask ::
  "(Option list \<Rightarrow> Options) \<Rightarrow> ('w, 'm) Worker \<Rightarrow> 'w queue \<Rightarrow> TaskFunc \<Rightarrow> Option list
     \<Rightarrow> error option \<times> 'w queue" where
  "Queue_QueueTask NewOptions W q task opts =
     (if q_stopFlag q = 1 then (Some ErrQueueShutdown, q)
      else
        let message = NewTask NewOptions task opts;
            (err, w') = w_Queue W (worker q) message
        in case err of
             Some e \<Rightarrow> (Some e, q\<lparr>worker := w'\<rparr>)
           | None \<Rightarrow> (None, q\<lparr>worker := w', q_metric := IncSubmittedTask (q_metric q)\<rparr>))"

text \<open>
  \<^verbatim>\<open>schedule\<close>: \<^verbatim>\<open>BusyWorkers()\<close> converts the \<^verbatim>\<open>uint64\<close> gauge to \<^verbatim>\<open>int\<close>, so the
  comparison is signed. The send on \<^verbatim>\<open>ready\<close> stands in a \<^verbatim>\<open>select\<close> with an empty
  \<^verbatim>\<open>default\<close>.
\<close>

definition Queue_schedule :: "'w queue \<Rightarrow> unit outcome \<times> 'w queue" where
  "Queue_schedule q =
     (if sint (workerCount q) \<le> sint (busyWorkers (q_metric q)) then (Return (), q)
      else
        (case try_send (ready q) () of
           Panic p \<Rightarrow> (Panic p, q)
         | Return (Some r) \<Rightarrow> (Return (), q\<lparr>ready := r\<rparr>)
         | Return None \<Rightarrow> (Return (), q)))"

definition UpdateWorkerCount :: "'w queue \<Rightarrow> 64 word \<Rightarrow> unit outcome \<times> 'w queue" where
  "UpdateWorkerCount q num = Queue_schedule (q\<lparr>workerCount := num\<rparr>)"

text \<open>
  \<^verbatim>\<open>work\<close>. \<open>err\<close> is the variable of that name: it keeps nil when \<^verbatim>\<open>Run\<close> panics;
  \<open>e\<close> is what \<^verbatim>\<open>recover()\<close> returns in the deferred function. The deferred function
  runs on both ways out of \<^verbatim>\<open>Run\<close>; a panic of its own would leave \<^verbatim>\<open>work\<close>.
\<close>

definition Queue_work ::
  "('w, 'm) Worker \<Rightarrow> 'w queue \<Rightarrow> 'm \<Rightarrow> (unit outcome \<times> 'w queue) option" where
  "Queue_work W q task =
     (case w_Run W (worker q) task of
        None \<Rightarrow> None
      | Some (r, w') \<Rightarrow>
          let q1 = q\<lparr>worker := w'\<rparr>;
              err = (case r of Return x \<Rightarrow> x | Panic p \<Rightarrow> None);
              q2 = (case err of Some x \<Rightarrow> emit (Errorf_runtime x) q1 | None \<Rightarrow> q1);
              q3 = q2\<lparr>q_metric := DecBusyWorker (q_metric q2)\<rparr>;
              e = (case r of Return x \<Rightarrow> None | Panic p \<Rightarrow> Some p);
              q4 = (case e of Some p \<Rightarrow> emit (Errorf_panic p) q3 | None \<Rightarrow> q3)
          in (case Queue_schedule q4 of
                (Panic p, q5) \<Rightarrow> Some (Panic p, q5)
              | (Return u, q5) \<Rightarrow>
                  Some (Return (),
                        if err = None \<and> e = None
                        then q5\<lparr>q_metric := IncSuccessTask (q_metric q5)\<rparr>
                        else q5\<lparr>q_metric := IncFailureTask (q_metric q5)\<rparr>)))"

text \<open>
  A pool between calls: \<^verbatim>\<open>ready\<close> is open (nothing in the source closes it) and holds
  at most its one token.
\<close>

definition ready_ok :: "'w queue \<Rightarrow> bool" where
  "ready_ok q = (\<not> ch_closed (ready q) \<and> ch_cap (ready q) = 1 \<and> length (ch_buf (ready q)) \<le> 1)"

subsection \<open>Concurrent calls of Shutdown\<close>

text \<open>
  Several goroutines may call \<^verbatim>\<open>Shutdown\<close> at once. A call is two atomic steps: the
  compare-and-swap on the stop flag, and, for the caller that won it, the
  \<^verbatim>\<open>stopOnce.Do\<close>, whose body the once runs under its own lock. \<open>pc\<close> says where a
  caller stands: before the compare-and-swap, before the once, returned, or left by a
  panic. \<open>Shutdown_step W i\<close> lets caller \<open>i\<close> take its next step; a schedule is the list
  of the callers in the order in which they take their steps.
\<close>

datatype pc = Entry | InOnce | Exited | Crashed

definition Shutdown_step ::
  "('w, 'm) Worker \<Rightarrow> nat \<Rightarrow> 'w queue \<times> pc list \<Rightarrow> 'w queue \<times> pc list" where
  "Shutdown_step W i st =
     (case st of (q, pcs) \<Rightarrow>
        if length pcs \<le> i then st
        else
          (case pcs ! i of
             Entry \<Rightarrow>
               (case CompareAndSwap_stopFlag q of
                  (True, q') \<Rightarrow> (q', pcs[i := InOnce])
                | (False, q') \<Rightarrow> (q', pcs[i := Exited]))
           | InOnce \<Rightarrow>
               (case stopOnce_Do W q of
                  (Return u, q') \<Rightarrow> (q', pcs[i := Exited])
                | (Panic p, q') \<Rightarrow> (q', pcs[i := Crashed]))
           | Exited \<Rightarrow> st
           | Crashed \<Rightarrow> st))"

definition Shutdown_interleaved ::
  "('w, 'm) Worker \<Rightarrow> nat list \<Rightarrow> 'w queue \<times> pc list \<Rightarrow> 'w queue \<times> pc list" where
  "Shutdown_interleaved W sched st = fold (Shutdown_step W) sched st"

text \<open>
  A pool on which \<^verbatim>\<open>Shutdown\<close> has not been called: the flag is clear, the once has
  not run, \<^verbatim>\<open>quit\<close> is open, and the history has no shutdown of the worker and no
  closing of \<^verbatim>\<open>quit\<close>.
\<close>

definition not_shut_down :: "'w queue \<Rightarrow> bool" where
  "not_shut_down q =
     (q_stopFlag q = 0 \<and> \<not> q_stopOnce q \<and> \<not> ch_closed (quit q)
      \<and> count_list (trace q) quit_closed = 0
      \<and> count_list (trace q) Worker_Shutdown_called = 0)"

text \<open>
  What holds of the pool and the callers after any number of steps: nobody panicked, and
  either nobody has won the compare-and-swap yet, or the winner stands before the once and
  nothing has been closed, or the once has run and closed \<^verbatim>\<open>quit\<close>, once.
\<close>

definition Shutdown_inv :: "'w queue \<Rightarrow> pc list \<Rightarrow> bool" where
  "Shutdown_inv q pcs =
     (Crashed \<notin> set pcs \<and>
      (if q_stopFlag q = 0 then
         (\<forall>k < length pcs. pcs ! k = Entry) \<and> \<not> q_stopOnce q \<and> \<not> ch_closed (quit q)
         \<and> count_list (trace q) quit_closed = 0
         \<and> count_list (trace q) Worker_Shutdown_called = 0
       else if q_stopOnce q then
         (\<forall>k < length pcs. pcs ! k \<noteq> InOnce) \<and> ch_closed (quit q) \<and> q_stopFlag q = 1
         \<and> count_list (trace q) quit_closed = 1
         \<and> count_list (trace q) Worker_Shutdown_called = 1
       else
         (\<exists>j < length pcs. pcs ! j = InOnce \<and> (\<forall>k < length pcs. k \<noteq> j \<longrightarrow> pcs ! k \<noteq> InOnce))
         \<and> \<not> ch_closed (quit q) \<and> q_stopFlag q = 1
         \<and> count_list (trace q) quit_closed = 0
         \<and> count_list (trace q) Worker_Shutdown_called = 0))"

text \<open>\<^verbatim>\<open>emptyWorker\<close> of \<^verbatim>\<open>worker_empty.go\<close>: a worker without state.\<close>

definition emptyWorker :: "(unit, 'm) Worker" where
  "emptyWorker =
     \<lparr>w_Queue = (\<lambda>w task. (None, w)),
      w_Request = (\<lambda>w. ((None, None), w)),
      w_Run = (\<lambda>w task. Some (Return None, w)),
      w_Shutdown = (\<lambda>w. (None, w))\<rparr>"

section \<open>Concrete inputs\<close>

text \<open>The values at which the theorems below are instantiated.\<close>

definition idle_fn :: "ctx \<Rightarrow> job \<Rightarrow> run" where
  "idle_fn c j = Finishes 0 (Returns None)"

definition zero_metric :: metric where
  "zero_metric = \<lparr>busyWorkers = 0, successTasks = 0, failureTasks = 0, submittedTasks = 0\<rparr>"

definition foo_message :: QueuedMessage where
  "foo_message = \<lparr>Bytes = Some ''foo'', as_Job = None\<rparr>"

definition full_consumer :: consumer where
  "full_consumer = snd (Consumer_Queue (NewConsumer 1 idle_fn zero_metric) foo_message)"

definition no_options :: "Option list \<Rightarrow> Options" where
  "no_options opts = \<lparr>retryCount = 0, retryDelay = 0, timeout = 0\<rparr>"

definition fresh_pool :: "unit queue" where
  "fresh_pool =
     \<lparr>q_metric = zero_metric, workerCount = 2, quit = make_chan 0, ready = make_chan 1,
      worker = (), q_stopOnce = False, q_stopFlag = 0, trace = []\<rparr>"

definition busy_pool :: "unit queue" where
  "busy_pool = fresh_pool\<lparr>q_metric := IncBusyWorker (q_metric fresh_pool)\<rparr>"









section \<open>Properties of the in-memory worker\<close>

text \<open>
  C4. On a consumer that has not been shut down, \<open>Consumer_Queue\<close> returns at once; it
  returns \<open>errMaxCapacity\<close> exactly when the buffer already holds as many messages as its
  capacity, and then leaves the consumer, and so \<open>Usage\<close>, as it was; with fewer messages
  it appends the message to the buffer and returns nil, and \<open>Usage\<close> grows by one.
\<close>

theorem Consumer_Queue_capacity:
  assumes "running s"
  shows "(fst (Consumer_Queue s task) = Return (Some errMaxCapacity) \<longleftrightarrow> Usage s = Capacity s)
       \<and> (Usage s = Capacity s \<longrightarrow>
            Consumer_Queue s task = (Return (Some errMaxCapacity), s))
       \<and> (Usage s < Capacity s \<longrightarrow>
            Consumer_Queue s task =
              (Return None,
               s\<lparr>taskQueue := (taskQueue s)\<lparr>ch_buf := ch_buf (taskQueue s) @ [task]\<rparr>\<rparr>)
            \<and> Usage (snd (Consumer_Queue s task)) = Usage s + 1)"
  using assms
  by (auto simp: running_def Consumer_Queue_def try_send_def Usage_def Capacity_def)

theorem Consumer_Queue_capacity_witness:
  "running full_consumer \<and> Usage full_consumer = 1 \<and> Capacity full_consumer = 1
   \<and> Consumer_Queue full_consumer foo_message = (Return (Some errMaxCapacity), full_consumer)"
proof -
  have r: "running full_consumer"
    by (simp add: full_consumer_def running_def Consumer_Queue_def NewConsumer_def
        try_send_def make_chan_def)
  have u: "Usage full_consumer = Capacity full_consumer"
    by (simp add: full_consumer_def Usage_def Capacity_def Consumer_Queue_def NewConsumer_def
        try_send_def make_chan_def)
  have c: "Capacity full_consumer = 1"
    by (simp add: full_consumer_def Usage_def Capacity_def Consumer_Queue_def NewConsumer_def
        try_send_def make_chan_def)
  from Consumer_Queue_capacity [OF r, of foo_message] u c r show ?thesis by simp
qed

text \<open>
  C5. On a consumer that has not been shut down, the first \<open>Consumer_Shutdown\<close> returns
  nil, sets the stop flag and closes both channels. Every later call returns
  \<open>ErrQueueShutdown\<close> and changes nothing, however many follow; and \<open>Consumer_Queue\<close>
  then rejects every message with \<open>ErrQueueShutdown\<close>, again changing nothing.
\<close>

theorem Consumer_Shutdown_idempotent:
  assumes "running s" and "s' = snd (Consumer_Shutdown s)"
  shows "fst (Consumer_Shutdown s) = Return None
       \<and> stopFlag s' = 1 \<and> ch_closed (stop s') \<and> ch_closed (taskQueue s')
       \<and> Consumer_Shutdown s' = (Return (Some ErrQueueShutdown), s')
       \<and> (\<forall>n. ((snd \<circ> Consumer_Shutdown) ^^ n) s' = s')
       \<and> (\<forall>task. Consumer_Queue s' task = (Return (Some ErrQueueShutdown), s'))"
proof -
  have a: "fst (Consumer_Shutdown s) = Return None" "stopFlag s' = 1"
    "ch_closed (stop s')" "ch_closed (taskQueue s')"
    using assms by (simp_all add: running_def Consumer_Shutdown_def close_chan_def Let_def)
  have b: "Consumer_Shutdown s' = (Return (Some ErrQueueShutdown), s')"
    using a(2) by (simp add: Consumer_Shutdown_def)
  have c: "((snd \<circ> Consumer_Shutdown) ^^ n) s' = s'" for n
    by (induction n) (simp_all add: b)
  have d: "Consumer_Queue s' task = (Return (Some ErrQueueShutdown), s')" for task
    using a(2) by (simp add: Consumer_Queue_def)
  from a b c d show ?thesis by blast
qed

theorem Consumer_Shutdown_idempotent_witness:
  "running (NewConsumer 2 idle_fn zero_metric)
   \<and> fst (Consumer_Shutdown (NewConsumer 2 idle_fn zero_metric)) = Return None
   \<and> fst (Consumer_Shutdown (snd (Consumer_Shutdown (NewConsumer 2 idle_fn zero_metric))))
       = Return (Some ErrQueueShutdown)
   \<and> fst (Consumer_Queue (snd (Consumer_Shutdown (NewConsumer 2 idle_fn zero_metric))) foo_message)
       = Return (Some ErrQueueShutdown)"
proof -
  have r: "running (NewConsumer 2 idle_fn zero_metric)"
    by (simp add: running_def NewConsumer_def make_chan_def)
  from Consumer_Shutdown_idempotent [OF r refl] r show ?thesis by simp
qed

subsection \<open>The select and the deadline\<close>










subsection \<open>Which callable is run\<close>










section \<open>Properties of the serialization\<close>


lemma digit_char_props:
  assumes "d < 10"
  shows "is_digit (digit_char d)" and "digit_val (digit_char d) = d"
    and "digit_char d \<noteq> CHR ''-''" and "digit_char d \<noteq> CHR 0x22" and "\<not> is_ws (digit_char d)"
    and "(digit_char d = CHR ''0'') = (d = 0)"
proof -
  from assms consider "d = 0" | "d = 1" | "d = 2" | "d = 3" | "d = 4" | "d = 5" | "d = 6"
    | "d = 7" | "d = 8" | "d = 9" by atomize_elim arith
  then have "is_digit (digit_char d) \<and> digit_val (digit_char d) = d
      \<and> digit_char d \<noteq> CHR ''-'' \<and> digit_char d \<noteq> CHR 0x22 \<and> \<not> is_ws (digit_char d)
      \<and> ((digit_char d = CHR ''0'') = (d = 0))"
    by cases (simp_all add: digit_char_def is_digit_def digit_val_def is_ws_def)
  then show "is_digit (digit_char d)" and "digit_val (digit_char d) = d"
    and "digit_char d \<noteq> CHR ''-''" and "digit_char d \<noteq> CHR 0x22" and "\<not> is_ws (digit_char d)"
    and "(digit_char d = CHR ''0'') = (d = 0)"
    by simp_all
qed

lemma show_nat_unfold:
  "show_nat n = (if n < 10 then [digit_char n] else show_nat (n div 10) @ [digit_char (n mod 10)])"
  by (subst show_nat.simps) (rule refl)

lemma show_nat_digits: "c \<in> set (show_nat n) \<Longrightarrow> is_digit c"
proof (induction n arbitrary: c rule: show_nat.induct)
  case (1 n)
  show ?case
  proof (cases "n < 10")
    case True
    with "1.prems" show ?thesis
      by (subst (asm) show_nat_unfold) (simp add: digit_char_props)
  next
    case False
    with "1.prems" have "c \<in> set (show_nat (n div 10)) \<or> c = digit_char (n mod 10)"
      by (subst (asm) show_nat_unfold) auto
    with "1.IH" [OF False] show ?thesis
      by (auto simp: digit_char_props)
  qed
qed

lemma show_nat_nonempty: "show_nat n \<noteq> []"
  by (subst show_nat_unfold) simp

lemma show_nat_hd: "hd (show_nat n) = CHR ''0'' \<Longrightarrow> n = 0"
proof (induction n rule: show_nat.induct)
  case (1 n)
  show ?case
  proof (cases "n < 10")
    case True
    with "1.prems" show ?thesis
      by (subst (asm) show_nat_unfold) (simp add: digit_char_props)
  next
    case False
    with "1.prems" have "hd (show_nat (n div 10)) = CHR ''0''"
      by (subst (asm) show_nat_unfold) (simp add: show_nat_nonempty)
    with "1.IH" [OF False] have "n div 10 = 0" by simp
    with False show ?thesis by simp
  qed
qed

lemma show_nat_length: "1 < length (show_nat n) \<Longrightarrow> 10 \<le> n"
  by (subst (asm) show_nat_unfold) (simp split: if_splits)

lemma foldl_show_nat: "foldl (\<lambda>a c. 10 * a + digit_val c) 0 (show_nat n) = n"
proof (induction n rule: show_nat.induct)
  case (1 n)
  show ?case
  proof (cases "n < 10")
    case True
    then show ?thesis
      by (subst show_nat_unfold) (simp add: digit_char_props)
  next
    case False
    with "1.IH" show ?thesis
      by (subst show_nat_unfold) (simp add: digit_char_props)
  qed
qed

lemma scan_digits_show_nat:
  assumes "\<not> is_digit c" and "c \<notin> {CHR ''.'', CHR ''e'', CHR ''E''}"
  shows "scan_digits (show_nat n @ c # rest) = Some (n, c # rest)"
proof -
  have t: "takeWhile is_digit (show_nat n @ c # rest) = show_nat n"
    using assms(1) by (simp add: takeWhile_append2 show_nat_digits)
  have d: "dropWhile is_digit (show_nat n @ c # rest) = c # rest"
    using assms(1) by (simp add: dropWhile_append2 show_nat_digits)
  have l: "\<not> (1 < length (show_nat n) \<and> hd (show_nat n) = CHR ''0'')"
    using show_nat_hd show_nat_length by fastforce
  from assms(2) l show ?thesis
    unfolding scan_digits_def t d by (auto simp: Let_def show_nat_nonempty foldl_show_nat)
qed

lemma separator_props:
  assumes "separator c"
  shows "\<not> is_digit c" and "c \<notin> {CHR ''.'', CHR ''e'', CHR ''E''}" and "\<not> is_ws c"
  using assms by (auto simp: separator_def is_digit_def is_ws_def)

lemma scan_value_show_int:
  assumes "separator c"
  shows "scan_value (show_int i @ c # rest) = Some (JNumber i, c # rest)"
proof (cases "i < 0")
  case True
  then show ?thesis
    using scan_digits_show_nat [OF separator_props(1,2) [OF assms], of "nat (- i)" rest]
    by (simp add: show_int_def scan_value_def)
next
  case False
  obtain x xs where x: "show_nat (nat i) = x # xs"
    using show_nat_nonempty [of "nat i"] by (cases "show_nat (nat i)") auto
  then have "is_digit x" using show_nat_digits [of x "nat i"] by simp
  then have nx: "x \<noteq> CHR 0x22" "x \<noteq> CHR ''-''" by (auto simp: is_digit_def)
  have "scan_value (x # xs @ c # rest) = Some (JNumber i, c # rest)"
    using scan_digits_show_nat [OF separator_props(1,2) [OF assms], of "nat i" rest] False
      \<open>is_digit x\<close> nx
    unfolding x by (simp add: scan_value_def)
  with False x show ?thesis by (simp add: show_int_def)
qed

lemma no_ws_show_int: "dropWhile is_ws (show_int i @ rest) = show_int i @ rest"
proof -
  obtain x xs where x: "show_nat (nat \<bar>i\<bar>) = x # xs"
    using show_nat_nonempty [of "nat \<bar>i\<bar>"] by (cases "show_nat (nat \<bar>i\<bar>)") auto
  then have "is_digit x" using show_nat_digits [of x "nat \<bar>i\<bar>"] by simp
  then have "\<not> is_ws x" by (auto simp: is_digit_def is_ws_def)
  with x show ?thesis
    by (cases "i < 0") (simp_all add: show_int_def is_ws_def abs_if)
qed

lemma b64_table:
  "list_all (\<lambda>i. b64_index (b64_char i) = Some i \<and> b64_char i \<noteq> CHR ''='' \<and> plain (b64_char i))
     [0..<64]"
  by (simp add: upt_rec [of _ "numeral n" for n] upt_rec [of _ "Suc n" for n]
      b64_char_def b64_alphabet_def b64_index_def plain_def Let_def)

lemma b64_char_props:
  assumes "i < 64"
  shows "b64_index (b64_char i) = Some i" and "b64_char i \<noteq> CHR ''=''" and "plain (b64_char i)"
  using b64_table assms by (simp_all add: list_all_iff)

lemma sext_a: 
  fixes n :: nat
  shows "n div 262144 * 4 + (n div 4096 mod 64) div 16 = n div 65536"
proof -
  have a: "n div 262144 = n div 65536 div 4"
    by (simp add: div_mult2_eq [symmetric])
  have "n div 4096 mod 64 div 16 = (n div 4096 div 16) mod 4"
    using mod_mult2_eq [of "n div 4096" 16 4] by simp
  also have "n div 4096 div 16 = n div 65536"
    by (simp add: div_mult2_eq [symmetric])
  finally have b: "n div 4096 mod 64 div 16 = n div 65536 mod 4" .
  show ?thesis unfolding a b by simp
qed

lemma sext_b:
  fixes n :: nat
  shows "((n div 4096 mod 64) * 16 + (n div 64 mod 64) div 4) mod 256 = n div 256 mod 256"
proof -
  have a: "n div 4096 = n div 256 div 16"
    by (simp add: div_mult2_eq [symmetric])
  have "n div 64 mod 64 div 4 = (n div 64 div 4) mod 16"
    using mod_mult2_eq [of "n div 64" 4 16] by simp
  also have "n div 64 div 4 = n div 256"
    by (simp add: div_mult2_eq [symmetric])
  finally have b: "n div 64 mod 64 div 4 = n div 256 mod 16" .
  have "(n div 256 div 16 mod 64) * 16 + n div 256 mod 16 = n div 256 mod 1024"
    using mod_mult2_eq [of "n div 256" 16 64] by simp
  then have "((n div 256 div 16 mod 64) * 16 + n div 256 mod 16) mod 256 = n div 256 mod 1024 mod 256"
    by simp
  also have "\<dots> = n div 256 mod 256"
    by (simp add: mod_mod_cancel)
  finally show ?thesis unfolding a b .
qed

lemma sext_c:
  fixes n :: nat
  shows "((n div 64 mod 64) * 64 + n mod 64) mod 256 = n mod 256"
proof -
  have "(n div 64 mod 64) * 64 + n mod 64 = n mod 4096"
    using mod_mult2_eq [of n 64 64] by simp
  then have "((n div 64 mod 64) * 64 + n mod 64) mod 256 = n mod 4096 mod 256" by simp
  also have "\<dots> = n mod 256" by (simp add: mod_mod_cancel)
  finally show ?thesis .
qed

lemma bytes3:
  fixes A B C :: nat
  assumes "A < 256" "B < 256" "C < 256"
  shows "(A * 65536 + B * 256 + C) div 65536 = A"
    and "(A * 65536 + B * 256 + C) div 256 mod 256 = B"
    and "(A * 65536 + B * 256 + C) mod 256 = C"
    and "(A * 65536 + B * 256 + C) div 262144 < 64"
proof -
  show "(A * 65536 + B * 256 + C) div 65536 = A" using assms by simp
  have e: "A * 65536 + B * 256 + C = (A * 256 + B) * 256 + C" by simp
  have m: "(A * 65536 + B * 256 + C) mod 256 = C"
    unfolding e using assms(3) by (simp only: mod_mult_self3 mod_less)
  have "((A * 256 + B) * 256 + C) div 256 = A * 256 + B + C div 256"
    by (rule div_mult_self3) simp
  then have d: "(A * 65536 + B * 256 + C) div 256 = A * 256 + B"
    unfolding e using assms(3) by (simp only: div_less add_0_right)
  show "(A * 65536 + B * 256 + C) div 256 mod 256 = B"
    unfolding d using assms(2) by simp
  show "(A * 65536 + B * 256 + C) mod 256 = C" by (rule m)
  show "(A * 65536 + B * 256 + C) div 262144 < 64" using assms by simp
qed


lemma quantum:
  fixes A B C :: nat
  assumes "A < 256" "B < 256" "C < 256" and n: "n = A * 65536 + B * 256 + C"
  shows "n div 262144 < 64"
    and "char_of (n div 262144 * 4 + n div 4096 mod 64 div 16) = (char_of A :: char)"
    and "char_of (n div 4096 mod 64 * 16 + n div 64 mod 64 div 4) = (char_of B :: char)"
    and "char_of (n div 64 mod 64 * 64 + n mod 64) = (char_of C :: char)"
proof -
  show "n div 262144 < 64"
    unfolding n using assms(1-3) by (rule bytes3(4))
  have "n div 262144 * 4 + n div 4096 mod 64 div 16 = A"
    unfolding sext_a unfolding n using assms(1-3) by (rule bytes3(1))
  then show "char_of (n div 262144 * 4 + n div 4096 mod 64 div 16) = (char_of A :: char)"
    by simp
  have "(n div 4096 mod 64 * 16 + n div 64 mod 64 div 4) mod 256 = B"
    unfolding sext_b unfolding n using assms(1-3) by (rule bytes3(2))
  then show "char_of (n div 4096 mod 64 * 16 + n div 64 mod 64 div 4) = (char_of B :: char)"
    by (metis char_of_mod_256)
  have "(n div 64 mod 64 * 64 + n mod 64) mod 256 = C"
    unfolding sext_c unfolding n using assms(1-3) by (rule bytes3(3))
  then show "char_of (n div 64 mod 64 * 64 + n mod 64) = (char_of C :: char)"
    by (metis char_of_mod_256)
qed

lemma base64_encode_nonempty: "xs \<noteq> [] \<Longrightarrow> \<exists>e es. base64_encode xs = e # es"
  by (cases xs rule: base64_encode.cases) (simp_all add: Let_def)

lemma base64_round_trip: "base64_decode (base64_encode xs) = Some xs"
proof (induction xs rule: base64_encode.induct)
  case (1 a b c rest)
  define n :: nat where "n = of_char a * 65536 + of_char b * 256 + of_char c"
  note q = quantum [OF _ _ _ n_def, simplified]
  have i: "n div 4096 mod 64 < 64" "n div 64 mod 64 < 64" "n mod 64 < 64" by simp_all
  note p0 = b64_char_props [OF q(1)] and p1 = b64_char_props [OF i(1)]
    and p2 = b64_char_props [OF i(2)] and p3 = b64_char_props [OF i(3)]
  show ?case
  proof (cases "rest = []")
    case True
    then show ?thesis
      using p0 p1 p2 p3 q by (simp add: Let_def n_def [symmetric])
  next
    case False
    then obtain e es where e: "base64_encode rest = e # es"
      using base64_encode_nonempty by blast
    have "base64_decode (e # es) = Some rest" using 1 e by simp
    then show ?thesis
      using p0 p1 p2 p3 q e by (simp add: Let_def n_def [symmetric])
  qed
next
  case (2 a b)
  define n :: nat where "n = of_char a * 65536 + of_char b * 256 + 0"
  note q = quantum [OF _ _ _ n_def, simplified]
  have i: "n div 4096 mod 64 < 64" "n div 64 mod 64 < 64" by simp_all
  note p0 = b64_char_props [OF q(1)] and p1 = b64_char_props [OF i(1)]
    and p2 = b64_char_props [OF i(2)]
  have n': "of_char a * 65536 + of_char b * 256 = n" by (simp add: n_def)
  show ?case
    using p0 p1 p2 q by (simp add: Let_def n')
next
  case (3 a)
  define n :: nat where "n = of_char a * 65536 + 0 * 256 + 0"
  note q = quantum [OF _ _ _ n_def, simplified]
  have i: "n div 4096 mod 64 < 64" by simp_all
  note p0 = b64_char_props [OF q(1)] and p1 = b64_char_props [OF i(1)]
  have n': "of_char a * 65536 = n" by (simp add: n_def)
  show ?case
    using p0 p1 q by (simp add: Let_def n')
next
  case 4
  show ?case by simp
qed

lemma base64_plain: "c \<in> set (base64_encode xs) \<Longrightarrow> plain c"
proof (induction xs rule: base64_encode.induct)
  case (1 a b c' rest)
  define n :: nat where "n = of_char a * 65536 + of_char b * 256 + of_char c'"
  have "n div 262144 < 64"
    using quantum(1) [OF _ _ _ n_def] by simp
  note p0 = b64_char_props(3) [OF this]
  have i: "n div 4096 mod 64 < 64" "n div 64 mod 64 < 64" "n mod 64 < 64" by simp_all
  note p = p0 b64_char_props(3) [OF i(1)] b64_char_props(3) [OF i(2)] b64_char_props(3) [OF i(3)]
  from "1.prems" "1.IH" p show ?case
    by (auto simp: Let_def n_def [symmetric])
next
  case (2 a b)
  define n :: nat where "n = of_char a * 65536 + of_char b * 256 + 0"
  have "n div 262144 < 64"
    using quantum(1) [OF _ _ _ n_def] by simp
  note p0 = b64_char_props(3) [OF this]
  have i: "n div 4096 mod 64 < 64" "n div 64 mod 64 < 64" by simp_all
  note p = p0 b64_char_props(3) [OF i(1)] b64_char_props(3) [OF i(2)]
  have n': "of_char a * 65536 + of_char b * 256 = n" by (simp add: n_def)
  from "2.prems" p show ?case
    by (auto simp: Let_def n' plain_def)
next
  case (3 a)
  define n :: nat where "n = of_char a * 65536 + 0 * 256 + 0"
  have "n div 262144 < 64"
    using quantum(1) [OF _ _ _ n_def] by simp
  note p0 = b64_char_props(3) [OF this]
  have i: "n div 4096 mod 64 < 64" by simp_all
  note p = p0 b64_char_props(3) [OF i(1)]
  have n': "of_char a * 65536 = n" by (simp add: n_def)
  from "3.prems" p show ?case
    by (auto simp: Let_def n' plain_def)
next
  case 4
  then show ?case by simp
qed

lemma scan_string_plain:
  "list_all plain s \<Longrightarrow> scan_string (s @ CHR 0x22 # rest) = Some (s, rest)"
  by (induction s) (simp_all add: plain_def)

lemma scan_string_base64:
  "scan_string (base64_encode xs @ CHR 0x22 # rest) = Some (base64_encode xs, rest)"
  by (rule scan_string_plain) (simp add: list_all_iff base64_plain)

lemma scan_value_json_bytes:
  "scan_value (json_bytes b @ c # rest) = Some (json_of_bytes b, c # rest)"
proof (cases b)
  case None
  then show ?thesis
    by (simp add: json_bytes_def json_of_bytes_def scan_value_def is_digit_def)
next
  case (Some xs)
  then show ?thesis
    by (simp add: json_bytes_def json_of_bytes_def scan_value_def scan_string_base64)
qed

lemma no_ws_json_bytes: "dropWhile is_ws (json_bytes b @ rest) = json_bytes b @ rest"
  by (cases b) (simp_all add: json_bytes_def is_ws_def)

lemma scan_members_more:
  assumes "list_all plain k"
    and "scan_value (vt @ CHR '','' # rest) = Some (v, CHR '','' # rest)"
    and "dropWhile is_ws (vt @ CHR '','' # rest) = vt @ CHR '','' # rest"
  shows "scan_members (Suc n) (CHR 0x22 # k @ CHR 0x22 # CHR '':'' # vt @ CHR '','' # rest)
       = map_option ((#) (k, v)) (scan_members n rest)"
  using assms by (simp add: is_ws_def scan_string_plain)

lemma scan_members_last:
  assumes "list_all plain k"
    and "scan_value (vt @ CHR ''}'' # rest) = Some (v, CHR ''}'' # rest)"
    and "dropWhile is_ws (vt @ CHR ''}'' # rest) = vt @ CHR ''}'' # rest"
    and "list_all is_ws rest"
  shows "scan_members (Suc n) (CHR 0x22 # k @ CHR 0x22 # CHR '':'' # vt @ CHR ''}'' # rest)
       = Some [(k, v)]"
  using assms by (simp add: is_ws_def scan_string_plain)

lemma separators: "separator (CHR '','')" "separator (CHR ''}'')"
  by (simp_all add: separator_def)

lemma Message_Encode_members:
  "\<exists>T. Message_Encode m = CHR ''{'' # CHR 0x22 # T
     \<and> 3 \<le> length T
     \<and> (\<forall>n. scan_members (Suc (Suc (Suc (Suc n)))) (CHR 0x22 # T) =
            Some [(''timeout'', JNumber (sint (msg_Timeout m))),
                  (''body'', json_of_bytes (Payload m)),
                  (''retry_count'', JNumber (sint (RetryCount m))),
                  (''retry_delay'', JNumber (sint (RetryDelay m)))])"
proof -
  define T4 where "T4 = CHR 0x22 # ''retry_delay'' @ CHR 0x22 # CHR '':'' #
      show_int (sint (RetryDelay m)) @ CHR ''}'' # []"
  define T3 where "T3 = CHR 0x22 # ''retry_count'' @ CHR 0x22 # CHR '':'' #
      show_int (sint (RetryCount m)) @ CHR '','' # T4"
  define T2 where "T2 = CHR 0x22 # ''body'' @ CHR 0x22 # CHR '':'' #
      json_bytes (Payload m) @ CHR '','' # T3"
  define T0 where "T0 = ''timeout'' @ CHR 0x22 # CHR '':'' #
      show_int (sint (msg_Timeout m)) @ CHR '','' # T2"
  have enc: "Message_Encode m = CHR ''{'' # CHR 0x22 # T0"
    by (simp add: Message_Encode_def T0_def T2_def T3_def T4_def)
  have len: "3 \<le> length T0"
    by (simp add: T0_def)
  have s4: "scan_members (Suc n) T4 = Some [(''retry_delay'', JNumber (sint (RetryDelay m)))]" for n
    unfolding T4_def
    by (rule scan_members_last)
      (simp_all add: plain_def scan_value_show_int separators no_ws_show_int)
  have s3: "scan_members (Suc n) T3 = map_option ((#) (''retry_count'', JNumber (sint (RetryCount m))))
      (scan_members n T4)" for n
    unfolding T3_def
    by (rule scan_members_more)
      (simp_all add: plain_def scan_value_show_int separators no_ws_show_int)
  have s2: "scan_members (Suc n) T2 = map_option ((#) (''body'', json_of_bytes (Payload m)))
      (scan_members n T3)" for n
    unfolding T2_def
    by (rule scan_members_more)
      (simp_all add: plain_def scan_value_json_bytes no_ws_json_bytes)
  have s1: "scan_members (Suc n) (CHR 0x22 # T0) =
      map_option ((#) (''timeout'', JNumber (sint (msg_Timeout m)))) (scan_members n T2)" for n
    unfolding T0_def
    by (rule scan_members_more)
      (simp_all add: plain_def scan_value_show_int separators no_ws_show_int)
  have all: "scan_members (Suc (Suc (Suc (Suc n)))) (CHR 0x22 # T0) =
            Some [(''timeout'', JNumber (sint (msg_Timeout m))),
                  (''body'', json_of_bytes (Payload m)),
                  (''retry_count'', JNumber (sint (RetryCount m))),
                  (''retry_delay'', JNumber (sint (RetryDelay m)))]" for n
    by (simp only: s1 s2 s3 s4 option.map)
  from enc len all show ?thesis by blast
qed

lemma scan_document_Message_Encode:
  "scan_document (Message_Encode m) =
     Object [(''timeout'', JNumber (sint (msg_Timeout m))),
             (''body'', json_of_bytes (Payload m)),
             (''retry_count'', JNumber (sint (RetryCount m))),
             (''retry_delay'', JNumber (sint (RetryDelay m)))]"
proof -
  from Message_Encode_members [of m] obtain T where
    enc: "Message_Encode m = CHR ''{'' # CHR 0x22 # T"
    and len: "3 \<le> length T"
    and sc: "\<And>n. scan_members (Suc (Suc (Suc (Suc n)))) (CHR 0x22 # T) =
            Some [(''timeout'', JNumber (sint (msg_Timeout m))),
                  (''body'', json_of_bytes (Payload m)),
                  (''retry_count'', JNumber (sint (RetryCount m))),
                  (''retry_delay'', JNumber (sint (RetryDelay m)))]"
    by blast
  from len obtain n where n: "length T = Suc (Suc (Suc n))"
    by (metis Suc_le_D numeral_3_eq_3 add_Suc le_Suc_ex plus_nat.add_0)
  have l: "length (CHR 0x22 # T) = Suc (Suc (Suc (Suc n)))"
    using n by simp
  have "scan_document (CHR ''{'' # CHR 0x22 # T) =
      (case scan_members (length (CHR 0x22 # T)) (CHR 0x22 # T) of
         Some ms \<Rightarrow> Object ms | None \<Rightarrow> Invalid)"
    by (simp add: scan_document_def is_ws_def del: scan_members.simps)
  also have "\<dots> = Object [(''timeout'', JNumber (sint (msg_Timeout m))),
             (''body'', json_of_bytes (Payload m)),
             (''retry_count'', JNumber (sint (RetryCount m))),
             (''retry_delay'', JNumber (sint (RetryDelay m)))]"
    by (simp only: l sc option.case)
  finally show ?thesis unfolding enc .
qed

lemma store_int64_sint: "store_int64 (JNumber (sint (w :: 64 word))) old = (True, w)"
proof -
  have "- (2 ^ 63) \<le> sint w" using sint_ge [of w] by simp
  moreover have "sint w < 2 ^ 63" using sint_lt [of w] by simp
  ultimately show ?thesis by (simp add: store_int64_def)
qed

lemma store_bytes_json: "store_bytes (json_of_bytes b) old = (True, b)"
  by (cases b) (simp_all add: store_bytes_def json_of_bytes_def base64_round_trip)

text \<open>
  C8. Decoding the text of \<open>Message_Encode m\<close> into any message stores the timeout, the
  payload, the retry count and the retry delay of \<open>m\<close> there, without an error; the
  task of the target, which the text does not carry, is left as it was. This holds for
  every \<open>m\<close>, and so for those with only the payload set.
\<close>

theorem Message_round_trip:
  "json_Unmarshal_Message (Message_Encode m) target =
     (None, target\<lparr>msg_Timeout := msg_Timeout m, Payload := Payload m,
                   RetryCount := RetryCount m, RetryDelay := RetryDelay m\<rparr>)"
  by (simp add: json_Unmarshal_Message_def scan_document_Message_Encode Message_member_def
      store_int64_sint store_bytes_json lower_def)

section \<open>Properties of the pool\<close>

text \<open>
  C2. Once the stop flag of the pool is set, \<open>Queue_Queue\<close> and \<open>Queue_QueueTask\<close> return
  exactly \<open>ErrQueueShutdown\<close> and leave the whole pool as it was: the worker was not
  called and no counter moved. The flag is set by the first step of \<open>Queue_Shutdown\<close>,
  the compare-and-swap, and is still set when \<open>Queue_Shutdown\<close> returns.
\<close>

theorem Queue_rejects_after_Shutdown:
  "(q_stopFlag q = 1 \<longrightarrow>
      Queue_Queue NewOptions W q m opts = (Some ErrQueueShutdown, q)
    \<and> Queue_QueueTask NewOptions W q task opts = (Some ErrQueueShutdown, q))
 \<and> (q_stopFlag q = 0 \<or> q_stopFlag q = 1 \<longrightarrow>
      q_stopFlag (snd (CompareAndSwap_stopFlag q)) = 1
    \<and> q_stopFlag (snd (Queue_Shutdown W q)) = 1)"
  by (auto simp: Queue_Queue_def Queue_QueueTask_def CompareAndSwap_stopFlag_def
      Queue_Shutdown_def stopOnce_Do_def emit_def Let_def
      split: prod.splits option.splits outcome.splits)

theorem Queue_rejects_after_Shutdown_witness:
  "q_stopFlag (snd (Queue_Shutdown (emptyWorker :: (unit, QueuedMessage) Worker) fresh_pool)) = 1
   \<and> Queue_Queue no_options (emptyWorker :: (unit, QueuedMessage) Worker)
         (snd (Queue_Shutdown (emptyWorker :: (unit, QueuedMessage) Worker) fresh_pool)) foo_message []
       = (Some ErrQueueShutdown,
          snd (Queue_Shutdown (emptyWorker :: (unit, QueuedMessage) Worker) fresh_pool))
   \<and> Queue_QueueTask no_options (emptyWorker :: (unit, QueuedMessage) Worker)
         (snd (Queue_Shutdown (emptyWorker :: (unit, QueuedMessage) Worker) fresh_pool))
         (\<lambda>c. Finishes 0 (Returns None)) []
       = (Some ErrQueueShutdown,
          snd (Queue_Shutdown (emptyWorker :: (unit, QueuedMessage) Worker) fresh_pool))"
proof -
  let ?W = "emptyWorker :: (unit, QueuedMessage) Worker"
  have f: "q_stopFlag fresh_pool = 0"
    by (simp add: fresh_pool_def)
  have s: "q_stopFlag (snd (Queue_Shutdown ?W fresh_pool)) = 1"
    using Queue_rejects_after_Shutdown [where q = fresh_pool and W = ?W] f by simp
  from Queue_rejects_after_Shutdown [where q = "snd (Queue_Shutdown ?W fresh_pool)" and W = ?W] s
  show ?thesis by simp
qed

text \<open>
  C3. On a pool whose stop flag is not set, \<open>Queue_Queue\<close> and \<open>Queue_QueueTask\<close> return
  what the worker's \<^verbatim>\<open>Queue\<close> returns. When that is an error the counters are as before;
  when it is nil the counter of submitted tasks is one higher.
\<close>

theorem Queue_submitted_after_Enqueue:
  assumes "q_stopFlag q \<noteq> 1"
    and "w_Queue W (worker q)
           \<lparr>msg_Task = None, msg_Timeout = 0,
            Payload = Some (Message_Encode (NewMessage NewOptions m opts)),
            RetryCount = 0, RetryDelay = 0\<rparr> = (err1, w1)"
    and "w_Queue W (worker q) (NewTask NewOptions task opts) = (err2, w2)"
  shows "Queue_Queue NewOptions W q m opts =
           (err1, q\<lparr>worker := w1,
                   q_metric := (if err1 = None then IncSubmittedTask (q_metric q) else q_metric q)\<rparr>)
       \<and> Queue_QueueTask NewOptions W q task opts =
           (err2, q\<lparr>worker := w2,
                   q_metric := (if err2 = None then IncSubmittedTask (q_metric q) else q_metric q)\<rparr>)
       \<and> submittedTasks (IncSubmittedTask (q_metric q)) = submittedTasks (q_metric q) + 1"
  using assms
  by (auto simp: Queue_Queue_def Queue_QueueTask_def Let_def IncSubmittedTask_def
      split: option.splits)

theorem Queue_submitted_after_Enqueue_witness:
  "q_stopFlag fresh_pool \<noteq> 1
   \<and> fst (Queue_Queue no_options (emptyWorker :: (unit, QueuedMessage) Worker)
            fresh_pool foo_message []) = None
   \<and> submittedTasks (q_metric (snd (Queue_Queue no_options
            (emptyWorker :: (unit, QueuedMessage) Worker) fresh_pool foo_message []))) = 1
   \<and> fst (Queue_QueueTask no_options (emptyWorker :: (unit, QueuedMessage) Worker)
            fresh_pool (\<lambda>c. Finishes 0 (Returns None)) []) = None
   \<and> submittedTasks (q_metric (snd (Queue_QueueTask no_options
            (emptyWorker :: (unit, QueuedMessage) Worker) fresh_pool
            (\<lambda>c. Finishes 0 (Returns None)) []))) = 1"
proof -
  let ?W = "emptyWorker :: (unit, QueuedMessage) Worker"
  have f: "q_stopFlag fresh_pool \<noteq> 1"
    by (simp add: fresh_pool_def)
  have a: "w_Queue ?W (worker fresh_pool) x = (None, ())" for x :: Message
    by (simp add: emptyWorker_def)
  have z: "submittedTasks (q_metric fresh_pool) = 0"
    by (simp add: fresh_pool_def zero_metric_def)
  from Queue_submitted_after_Enqueue [OF f a a, where NewOptions = no_options and m = foo_message
      and opts = "[]" and task = "\<lambda>c. Finishes 0 (Returns None)"] f z
  show ?thesis by simp
qed

text \<open>
  C9. \<open>Queue_work\<close> ends exactly when the worker's \<^verbatim>\<open>Run\<close> ends, and then it returns,
  also when \<^verbatim>\<open>Run\<close> panicked. The gauge of busy workers is one lower afterwards; the
  counter of successes is one higher when \<^verbatim>\<open>Run\<close> returned nil, and otherwise (an
  error or a panic) the counter of failures is one higher; the other of the two, and the
  counter of submitted tasks, are as before.
\<close>

theorem Queue_work_accounting:
  assumes "ready_ok q"
  shows "(Queue_work W q task = None \<longleftrightarrow> w_Run W (worker q) task = None)
       \<and> (\<forall>r w'. w_Run W (worker q) task = Some (r, w') \<longrightarrow>
            (\<exists>q'. Queue_work W q task = Some (Return (), q')
               \<and> busyWorkers (q_metric q') = busyWorkers (q_metric q) - 1
               \<and> submittedTasks (q_metric q') = submittedTasks (q_metric q)
               \<and> successTasks (q_metric q') =
                   (if r = Return None then successTasks (q_metric q) + 1 else successTasks (q_metric q))
               \<and> failureTasks (q_metric q') =
                   (if r = Return None then failureTasks (q_metric q) else failureTasks (q_metric q) + 1)))"
  using assms
  by (auto simp: Queue_work_def Queue_schedule_def ready_ok_def try_send_def emit_def Let_def
      DecBusyWorker_def IncSuccessTask_def IncFailureTask_def
      split: option.splits outcome.splits prod.splits)

theorem Queue_work_accounting_witness:
  "ready_ok busy_pool
   \<and> w_Run emptyWorker (worker busy_pool) foo_message = Some (Return None, ())
   \<and> map_option fst (Queue_work emptyWorker busy_pool foo_message) = Some (Return ())
   \<and> busyWorkers (q_metric busy_pool) = 1
   \<and> map_option (busyWorkers \<circ> q_metric \<circ> snd) (Queue_work emptyWorker busy_pool foo_message) = Some 0
   \<and> map_option (successTasks \<circ> q_metric \<circ> snd) (Queue_work emptyWorker busy_pool foo_message) = Some 1
   \<and> map_option (failureTasks \<circ> q_metric \<circ> snd) (Queue_work emptyWorker busy_pool foo_message) = Some 0"
proof -
  have r: "ready_ok busy_pool"
    by (simp add: ready_ok_def busy_pool_def fresh_pool_def make_chan_def)
  have w: "w_Run emptyWorker (worker busy_pool) foo_message = Some (Return None, ())"
    by (simp add: emptyWorker_def)
  have m: "busyWorkers (q_metric busy_pool) = 1" "successTasks (q_metric busy_pool) = 0"
    "failureTasks (q_metric busy_pool) = 0"
    by (simp_all add: busy_pool_def fresh_pool_def zero_metric_def IncBusyWorker_def)
  from Queue_work_accounting [OF r, of emptyWorker foo_message] w
  obtain q' where "Queue_work emptyWorker busy_pool foo_message = Some (Return (), q')"
    and "busyWorkers (q_metric q') = busyWorkers (q_metric busy_pool) - 1"
    and "successTasks (q_metric q') = successTasks (q_metric busy_pool) + 1"
    and "failureTasks (q_metric q') = failureTasks (q_metric busy_pool)"
    by auto
  with r w m show ?thesis by simp
qed

lemma Queue_Shutdown_steps:
  "Queue_Shutdown W q =
     (case Shutdown_step W 0 (Shutdown_step W 0 (q, [Entry])) of
        (q', pcs) \<Rightarrow> (if pcs = [Crashed] then Panic ''close of closed channel'' else Return (), q'))"
  by (auto simp: Queue_Shutdown_def Shutdown_step_def CompareAndSwap_stopFlag_def stopOnce_Do_def
      close_chan_def Let_def split: prod.splits outcome.splits option.splits)

lemma Shutdown_inv_init: "not_shut_down q \<Longrightarrow> Shutdown_inv q (replicate n Entry)"
  by (simp add: not_shut_down_def Shutdown_inv_def)

lemma stopOnce_Do_first:
  assumes "\<not> q_stopOnce q" "\<not> ch_closed (quit q)"
    "count_list (trace q) quit_closed = 0" "count_list (trace q) Worker_Shutdown_called = 0"
    "stopOnce_Do W q = (r, q')"
  shows "r = Return () \<and> q_stopOnce q' \<and> ch_closed (quit q') \<and> q_stopFlag q' = q_stopFlag q
       \<and> count_list (trace q') quit_closed = 1
       \<and> count_list (trace q') Worker_Shutdown_called = 1"
  using assms
  by (auto simp: stopOnce_Do_def close_chan_def emit_def Let_def
      split: prod.splits option.splits if_splits)

lemma Shutdown_inv_step:
  assumes "Shutdown_inv q pcs" and "Shutdown_step W i (q, pcs) = (q', pcs')"
  shows "Shutdown_inv q' pcs'"
proof (cases "length pcs \<le> i")
  case True
  with assms show ?thesis by (simp add: Shutdown_step_def)
next
  case False
  then have i: "i < length pcs" by simp
  show ?thesis
  proof (cases "pcs ! i")
    case Entry
    show ?thesis
    proof (cases "q_stopFlag q = 0")
      case True
      with Entry i assms(2) have q': "q' = q\<lparr>q_stopFlag := 1\<rparr>" and p': "pcs' = pcs[i := InOnce]"
        by (auto simp: Shutdown_step_def CompareAndSwap_stopFlag_def)
      from assms(1) True have a: "\<forall>k < length pcs. pcs ! k = Entry" "\<not> q_stopOnce q"
        "\<not> ch_closed (quit q)" "count_list (trace q) quit_closed = 0"
        "count_list (trace q) Worker_Shutdown_called = 0" "Crashed \<notin> set pcs"
        by (simp_all add: Shutdown_inv_def)
      have c: "Crashed \<notin> set pcs'"
        using a(6) p' by (auto dest: set_update_subset_insert [THEN subsetD])
      have u: "\<exists>j < length pcs'. pcs' ! j = InOnce \<and> (\<forall>k < length pcs'. k \<noteq> j \<longrightarrow> pcs' ! k \<noteq> InOnce)"
        using a(1) i p' by (intro exI [of _ i]) (auto simp: nth_list_update)
      from a c u q' show ?thesis by (simp add: Shutdown_inv_def)
    next
      case False
      with Entry i assms(2) have q': "q' = q" and p': "pcs' = pcs[i := Exited]"
        by (auto simp: Shutdown_step_def CompareAndSwap_stopFlag_def)
      have c: "Crashed \<notin> set pcs'"
        using assms(1) p' by (auto simp: Shutdown_inv_def dest: set_update_subset_insert [THEN subsetD])
      show ?thesis
      proof (cases "q_stopOnce q")
        case True
        with assms(1) False c i p' q' show ?thesis
          by (auto simp: Shutdown_inv_def nth_list_update)
      next
        case nonce: False
        with assms(1) False obtain j where j: "j < length pcs" "pcs ! j = InOnce"
          "\<forall>k < length pcs. k \<noteq> j \<longrightarrow> pcs ! k \<noteq> InOnce"
          by (auto simp: Shutdown_inv_def)
        with Entry have "j \<noteq> i" by auto
        with j i p' have "\<exists>j < length pcs'. pcs' ! j = InOnce \<and> (\<forall>k < length pcs'. k \<noteq> j \<longrightarrow> pcs' ! k \<noteq> InOnce)"
          by (intro exI [of _ j]) (auto simp: nth_list_update)
        with assms(1) False nonce c q' show ?thesis
          by (simp add: Shutdown_inv_def)
      qed
    qed
  next
    case InOnce
    with assms(1) i have f: "q_stopFlag q \<noteq> 0"
      by (auto simp: Shutdown_inv_def split: if_splits)
    with assms(1) InOnce i have nonce: "\<not> q_stopOnce q"
      by (auto simp: Shutdown_inv_def split: if_splits)
    with assms(1) f obtain j where j: "j < length pcs" "pcs ! j = InOnce"
      "\<forall>k < length pcs. k \<noteq> j \<longrightarrow> pcs ! k \<noteq> InOnce"
      and o: "\<not> ch_closed (quit q)" "q_stopFlag q = 1" "count_list (trace q) quit_closed = 0"
      "count_list (trace q) Worker_Shutdown_called = 0" "Crashed \<notin> set pcs"
      by (auto simp: Shutdown_inv_def)
    from j InOnce i have ji: "j = i" by auto
    obtain r q1 where d: "stopOnce_Do W q = (r, q1)" by (cases "stopOnce_Do W q")
    from stopOnce_Do_first [OF nonce o(1) o(3) o(4) d]
    have r: "r = Return ()" and q1: "q_stopOnce q1" "ch_closed (quit q1)" "q_stopFlag q1 = q_stopFlag q"
      "count_list (trace q1) quit_closed = 1" "count_list (trace q1) Worker_Shutdown_called = 1"
      by simp_all
    from assms(2) InOnce i d r have e: "q' = q1" "pcs' = pcs[i := Exited]"
      by (auto simp: Shutdown_step_def)
    have c: "Crashed \<notin> set pcs'"
      using o(5) e by (auto dest: set_update_subset_insert [THEN subsetD])
    have n: "\<forall>k < length pcs'. pcs' ! k \<noteq> InOnce"
      using j ji e by (auto simp: nth_list_update)
    from c n q1 o(2) e show ?thesis by (simp add: Shutdown_inv_def)
  next
    case Exited
    with assms i show ?thesis by (simp add: Shutdown_step_def)
  next
    case Crashed
    with assms i show ?thesis by (simp add: Shutdown_step_def)
  qed
qed

lemma Shutdown_inv_interleaved:
  "Shutdown_inv q pcs \<Longrightarrow> Shutdown_interleaved W sched (q, pcs) = (q', pcs') \<Longrightarrow> Shutdown_inv q' pcs'"
proof (induction sched arbitrary: q pcs)
  case Nil
  then show ?case by (simp add: Shutdown_interleaved_def)
next
  case (Cons i sched)
  obtain q1 pcs1 where s: "Shutdown_step W i (q, pcs) = (q1, pcs1)"
    by (cases "Shutdown_step W i (q, pcs)")
  from Cons.prems(2) s have "Shutdown_interleaved W sched (q1, pcs1) = (q', pcs')"
    by (simp add: Shutdown_interleaved_def)
  with Cons.IH Shutdown_inv_step [OF Cons.prems(1) s] show ?case by blast
qed

lemma Shutdown_step_length: "length (snd (Shutdown_step W i st)) = length (snd st)"
  by (auto simp: Shutdown_step_def split: prod.splits pc.splits bool.splits outcome.splits)

lemma Queue_Shutdown_first:
  assumes "not_shut_down q"
  shows "fst (Queue_Shutdown W q) = Return ()
       \<and> q_stopFlag (snd (Queue_Shutdown W q)) = 1
       \<and> count_list (trace (snd (Queue_Shutdown W q))) quit_closed = 1
       \<and> count_list (trace (snd (Queue_Shutdown W q))) Worker_Shutdown_called = 1"
proof -
  obtain r q1 where d: "stopOnce_Do W (q\<lparr>q_stopFlag := 1\<rparr>) = (r, q1)"
    by (cases "stopOnce_Do W (q\<lparr>q_stopFlag := 1\<rparr>)")
  have "r = Return () \<and> q_stopOnce q1 \<and> ch_closed (quit q1)
      \<and> q_stopFlag q1 = q_stopFlag (q\<lparr>q_stopFlag := 1\<rparr>)
      \<and> count_list (trace q1) quit_closed = 1
      \<and> count_list (trace q1) Worker_Shutdown_called = 1"
    using assms by (intro stopOnce_Do_first [OF _ _ _ _ d]) (simp_all add: not_shut_down_def)
  with assms d show ?thesis
    by (simp add: Queue_Shutdown_def CompareAndSwap_stopFlag_def not_shut_down_def)
qed

lemma Queue_Shutdown_again:
  "q_stopFlag q \<noteq> 0 \<Longrightarrow> Queue_Shutdown W q = (Return (), q)"
  by (simp add: Queue_Shutdown_def CompareAndSwap_stopFlag_def)

lemma Queue_Shutdown_repeated:
  assumes "not_shut_down q"
  shows "((snd \<circ> Queue_Shutdown W) ^^ Suc k) q = snd (Queue_Shutdown W q)"
proof (induction k)
  case 0
  show ?case by simp
next
  case (Suc k)
  have "q_stopFlag (snd (Queue_Shutdown W q)) \<noteq> 0"
    using Queue_Shutdown_first [OF assms, of W] by simp
  then have "snd (Queue_Shutdown W (snd (Queue_Shutdown W q))) = snd (Queue_Shutdown W q)"
    by (simp add: Queue_Shutdown_again)
  with Suc show ?case by simp
qed

text \<open>
  C6. From a pool on which \<^verbatim>\<open>Shutdown\<close> has not been called, let any number of
  goroutines call it, their steps interleaved in any order. At every moment no caller has
  panicked, \<^verbatim>\<open>quit\<close> has been closed at most once and the worker's \<^verbatim>\<open>Shutdown\<close> has
  been called at most once; and once all callers (at least one) have returned,
  \<^verbatim>\<open>quit\<close> is closed, the stop flag is set, and both have happened exactly once. The
  same holds for calls one after the other: every call returns, and after one or more
  calls both have happened exactly once.
\<close>

theorem Queue_Shutdown_once:
  assumes "not_shut_down q"
    and "Shutdown_interleaved W sched (q, replicate n Entry) = (q', pcs')"
  shows "Crashed \<notin> set pcs'
       \<and> count_list (trace q') quit_closed \<le> 1
       \<and> count_list (trace q') Worker_Shutdown_called \<le> 1
       \<and> (pcs' \<noteq> [] \<and> (\<forall>k < length pcs'. pcs' ! k = Exited) \<longrightarrow>
            ch_closed (quit q') \<and> q_stopFlag q' = 1
          \<and> count_list (trace q') quit_closed = 1
          \<and> count_list (trace q') Worker_Shutdown_called = 1)
       \<and> (\<forall>k. fst (Queue_Shutdown W (((snd \<circ> Queue_Shutdown W) ^^ k) q)) = Return ()
            \<and> count_list (trace (((snd \<circ> Queue_Shutdown W) ^^ Suc k) q)) quit_closed = 1
            \<and> count_list (trace (((snd \<circ> Queue_Shutdown W) ^^ Suc k) q)) Worker_Shutdown_called = 1)"
proof -
  have "Shutdown_inv q' pcs'"
    using Shutdown_inv_interleaved [OF Shutdown_inv_init [OF assms(1)] assms(2)] .
  then have a: "Crashed \<notin> set pcs'
       \<and> count_list (trace q') quit_closed \<le> 1
       \<and> count_list (trace q') Worker_Shutdown_called \<le> 1
       \<and> (pcs' \<noteq> [] \<and> (\<forall>k < length pcs'. pcs' ! k = Exited) \<longrightarrow>
            ch_closed (quit q') \<and> q_stopFlag q' = 1
          \<and> count_list (trace q') quit_closed = 1
          \<and> count_list (trace q') Worker_Shutdown_called = 1)"
    by (cases pcs') (auto simp: Shutdown_inv_def split: if_splits)
  note f = Queue_Shutdown_first [OF assms(1), of W]
  have b: "fst (Queue_Shutdown W (((snd \<circ> Queue_Shutdown W) ^^ k) q)) = Return ()" for k
  proof (cases k)
    case 0
    with f show ?thesis by simp
  next
    case (Suc j)
    have "q_stopFlag (snd (Queue_Shutdown W q)) \<noteq> 0" using f by simp
    then show ?thesis
      unfolding Suc Queue_Shutdown_repeated [OF assms(1)] by (simp add: Queue_Shutdown_again)
  qed
  have c: "count_list (trace (((snd \<circ> Queue_Shutdown W) ^^ Suc k) q)) quit_closed = 1
         \<and> count_list (trace (((snd \<circ> Queue_Shutdown W) ^^ Suc k) q)) Worker_Shutdown_called = 1" for k
    unfolding Queue_Shutdown_repeated [OF assms(1)] using f by simp
  from a b c show ?thesis by blast
qed

theorem Queue_Shutdown_once_witness:
  "not_shut_down fresh_pool
   \<and> snd (Shutdown_interleaved (emptyWorker :: (unit, QueuedMessage) Worker) [0, 1, 1, 0]
            (fresh_pool, replicate 2 Entry)) = [Exited, Exited]
   \<and> ch_closed (quit (fst (Shutdown_interleaved (emptyWorker :: (unit, QueuedMessage) Worker)
            [0, 1, 1, 0] (fresh_pool, replicate 2 Entry))))
   \<and> count_list (trace (fst (Shutdown_interleaved (emptyWorker :: (unit, QueuedMessage) Worker)
            [0, 1, 1, 0] (fresh_pool, replicate 2 Entry)))) quit_closed = 1
   \<and> count_list (trace (fst (Shutdown_interleaved (emptyWorker :: (unit, QueuedMessage) Worker)
            [0, 1, 1, 0] (fresh_pool, replicate 2 Entry)))) Worker_Shutdown_called = 1"
proof -
  let ?W = "emptyWorker :: (unit, QueuedMessage) Worker"
  let ?r = "Shutdown_interleaved ?W [0, 1, 1, 0] (fresh_pool, replicate 2 Entry)"
  have n: "not_shut_down fresh_pool"
    by (simp add: not_shut_down_def fresh_pool_def make_chan_def)
  have p: "snd ?r = [Exited, Exited]"
    by (simp add: Shutdown_interleaved_def Shutdown_step_def CompareAndSwap_stopFlag_def
        stopOnce_Do_def close_chan_def emit_def emptyWorker_def fresh_pool_def make_chan_def
        zero_metric_def numeral_2_eq_2 Let_def)
  have x: "\<forall>k < length (snd ?r). snd ?r ! k = Exited"
    unfolding p by (simp add: less_Suc_eq)
  have e: "?r = (fst ?r, snd ?r)" by simp
  from Queue_Shutdown_once [OF n e] x p n show ?thesis by auto
qed

end
